theory Spec2Isabelle
  imports Main "HOL-Library.Word"
begin

section \<open>Bytes and strings\<close>

text \<open>
  A Go string is a sequence of bytes; it is modelled as a \<open>string\<close> (a list of 8-bit
  characters).  The byte value of a character is read with \<open>byte\<close>.
\<close>

definition byte :: "char \<Rightarrow> nat" where
  "byte c = of_char c"

definition is_lower :: "char \<Rightarrow> bool" where
  "is_lower c = (97 \<le> byte c \<and> byte c \<le> 122)"

definition is_upper :: "char \<Rightarrow> bool" where
  "is_upper c = (65 \<le> byte c \<and> byte c \<le> 90)"

definition is_alpha :: "char \<Rightarrow> bool" where
  "is_alpha c = (is_lower c \<or> is_upper c)"

definition is_digit :: "char \<Rightarrow> bool" where
  "is_digit c = (48 \<le> byte c \<and> byte c \<le> 57)"

text \<open>\<open>strings.ToLower\<close> on the bytes \<open>A\<close>..\<open>Z\<close>; a scheme holds ASCII only.\<close>

definition lower_char :: "char \<Rightarrow> char" where
  "lower_char c = (if is_upper c then char_of (byte c + 32) else c)"

definition ToLower :: "string \<Rightarrow> string" where
  "ToLower s = map lower_char s"

definition HasPrefix :: "string \<Rightarrow> string \<Rightarrow> bool" where
  "HasPrefix s p = (take (length p) s = p)"

text \<open>\<open>strings.Index\<close> and \<open>strings.LastIndex\<close>: \<open>None\<close> stands for \<open>-1\<close>.\<close>

fun Index :: "string \<Rightarrow> string \<Rightarrow> nat option" where
  "Index [] p = (if p = [] then Some 0 else None)"
| "Index (c # cs) p =
     (if HasPrefix (c # cs) p then Some 0
      else (case Index cs p of None \<Rightarrow> None | Some i \<Rightarrow> Some (Suc i)))"

fun LastIndexByte :: "string \<Rightarrow> char \<Rightarrow> nat option" where
  "LastIndexByte [] b = None"
| "LastIndexByte (c # cs) b =
     (case LastIndexByte cs b of
        Some i \<Rightarrow> Some (Suc i)
      | None \<Rightarrow> (if c = b then Some 0 else None))"

text \<open>\<open>strings.Cut(s, sep)\<close> for a one-byte separator: the text before the first
  separator and the text after it (empty when there is none).\<close>

definition cut_before :: "char \<Rightarrow> string \<Rightarrow> string" where
  "cut_before sep s = takeWhile (\<lambda>c. c \<noteq> sep) s"

definition cut_after :: "char \<Rightarrow> string \<Rightarrow> string" where
  "cut_after sep s = drop 1 (dropWhile (\<lambda>c. c \<noteq> sep) s)"

section \<open>Errors\<close>

text \<open>
  The error values the package returns.  \<open>errors.New(msg)\<close> is \<open>ErrorString msg\<close>;
  \<open>url.Parse\<close> fails with a \<open>*url.Error\<close> holding the operation's input and a cause;
  \<open>strconv.Atoi\<close> fails with a \<open>*strconv.NumError\<close> holding the input and \<open>ErrSyntax\<close>
  or \<open>ErrRange\<close>; \<open>credentials.NewErrCredentialsNotFound()\<close> is the typed not-found error.
\<close>

datatype url_cause =
    InvalidControlCharacter
  | MissingProtocolScheme
  | FirstPathSegmentColon
  | MissingBracket
  | InvalidPort string
  | EscapeError string
  | InvalidHostError string
  | InvalidUserinfo

datatype num_cause = ErrSyntax | ErrRange

datatype error =
    ErrorString string
  | UrlError string url_cause
  | NumError string num_cause
  | ErrCredentialsNotFound

section \<open>The standard library calls of \<open>splitServer\<close>\<close>

subsection \<open>The scheme test\<close>

text \<open>
  \<open>regexp.MustCompile(`^([a-zA-Z][-+.a-zA-Z0-9]+:)?//`).MatchString(serverURL)\<close>: the
  text starts with \<open>//\<close>, or with a letter, at least one more character of the class
  \<open>[-+.a-zA-Z0-9]\<close>, a colon and \<open>//\<close>.  The class holds neither \<open>:\<close> nor \<open>/\<close>, so
  the run of class characters a match consumes is the longest one.
\<close>

definition scheme_class :: "char \<Rightarrow> bool" where
  "scheme_class c = (c = CHR ''-'' \<or> c = CHR ''+'' \<or> c = CHR ''.'' \<or> is_alpha c \<or> is_digit c)"

definition scheme_regexp_match :: "string \<Rightarrow> bool" where
  "scheme_regexp_match s =
     (HasPrefix s ''//'' \<or>
      (case s of
         [] \<Rightarrow> False
       | c # cs \<Rightarrow> is_alpha c \<and> takeWhile scheme_class cs \<noteq> [] \<and>
                  HasPrefix (dropWhile scheme_class cs) ''://''))"

subsection \<open>\<open>net/url\<close>\<close>

text \<open>
  \<open>url.Parse\<close> and the methods \<open>Hostname\<close> and \<open>Port\<close> belong to Go's standard
  library; they are modelled function by function after its implementation (the one that
  rejects control characters, validates the port at parse time and lower-cases the
  scheme).  Of \<open>url.URL\<close> only the fields that \<open>splitServer\<close> reads are kept.  The
  parser's other outputs (user information, query, fragment, opaque part) are not
  stored, but every check that makes \<open>url.Parse\<close> fail is kept.
\<close>

record URL =
  Scheme :: string
  Host :: string
  Path :: string

datatype encoding =
    encodePath
  | encodePathSegment
  | encodeHost
  | encodeZone
  | encodeUserPassword
  | encodeQueryComponent
  | encodeFragment

definition stringContainsCTLByte :: "string \<Rightarrow> bool" where
  "stringContainsCTLByte s = list_ex (\<lambda>b. byte b < 32 \<or> byte b = 127) s"

text \<open>\<open>getScheme\<close>: the loop over the bytes of \<open>rawURL\<close>, with the index \<open>i\<close>.\<close>

fun getScheme_loop :: "string \<Rightarrow> nat \<Rightarrow> string \<Rightarrow> url_cause + string \<times> string" where
  "getScheme_loop rawURL i [] = Inr ([], rawURL)"
| "getScheme_loop rawURL i (c # cs) =
     (if is_alpha c then getScheme_loop rawURL (Suc i) cs
      else if is_digit c \<or> c = CHR ''+'' \<or> c = CHR ''-'' \<or> c = CHR ''.'' then
        (if i = 0 then Inr ([], rawURL) else getScheme_loop rawURL (Suc i) cs)
      else if c = CHR '':'' then
        (if i = 0 then Inl MissingProtocolScheme
         else Inr (take i rawURL, drop (Suc i) rawURL))
      else Inr ([], rawURL))"

definition getScheme :: "string \<Rightarrow> url_cause + string \<times> string" where
  "getScheme rawURL = getScheme_loop rawURL 0 rawURL"

definition ishex :: "char \<Rightarrow> bool" where
  "ishex c = (is_digit c \<or> (97 \<le> byte c \<and> byte c \<le> 102) \<or> (65 \<le> byte c \<and> byte c \<le> 70))"

definition unhex :: "char \<Rightarrow> nat" where
  "unhex c =
     (if is_digit c then byte c - 48
      else if 97 \<le> byte c \<and> byte c \<le> 102 then byte c - 97 + 10
      else if 65 \<le> byte c \<and> byte c \<le> 70 then byte c - 65 + 10
      else 0)"

text \<open>\<open>shouldEscape(c, encodeHost)\<close>, the only mode \<open>url.Parse\<close> asks it about.\<close>

definition shouldEscape_host :: "char \<Rightarrow> bool" where
  "shouldEscape_host c =
     (\<not> (is_alpha c \<or> is_digit c \<or>
         c \<in> set ''!$&'' \<or> c = CHR 0x27 \<or> c \<in> set ''()*+,;=:[]<>'' \<or> c = CHR 0x22 \<or>
         c \<in> set ''-_.~''))"

text \<open>
  \<open>unescape(s, mode)\<close>.  The source validates the whole string in a first pass and
  decodes in a second; the first error by position is the one returned, so one pass that
  stops at the first invalid byte gives the same result.
\<close>

fun unescape :: "encoding \<Rightarrow> string \<Rightarrow> url_cause + string" where
  "unescape mode [] = Inr []"
| "unescape mode (c # cs) =
     (if c = CHR ''%'' then
        (case cs of
           h1 # h2 # rest \<Rightarrow>
             if \<not> ishex h1 \<or> \<not> ishex h2 then Inl (EscapeError [c, h1, h2])
             else if mode = encodeHost \<and> unhex h1 < 8 \<and> [c, h1, h2] \<noteq> ''%25''
               then Inl (EscapeError [c, h1, h2])
             else if mode = encodeZone \<and> [c, h1, h2] \<noteq> ''%25'' \<and>
                     char_of (unhex h1 * 16 + unhex h2) \<noteq> CHR '' '' \<and>
                     shouldEscape_host (char_of (unhex h1 * 16 + unhex h2))
               then Inl (EscapeError [c, h1, h2])
             else (case unescape mode rest of
                     Inl e \<Rightarrow> Inl e
                   | Inr t \<Rightarrow> Inr (char_of (unhex h1 * 16 + unhex h2) # t))
         | _ \<Rightarrow> Inl (EscapeError (c # cs)))
      else if c = CHR ''+'' then
        (case unescape mode cs of
           Inl e \<Rightarrow> Inl e
         | Inr t \<Rightarrow> Inr ((if mode = encodeQueryComponent then CHR '' '' else c) # t))
      else if (mode = encodeHost \<or> mode = encodeZone) \<and> byte c < 128 \<and> shouldEscape_host c
        then Inl (InvalidHostError [c])
      else (case unescape mode cs of Inl e \<Rightarrow> Inl e | Inr t \<Rightarrow> Inr (c # t)))"

definition validOptionalPort :: "string \<Rightarrow> bool" where
  "validOptionalPort port =
     (case port of
        [] \<Rightarrow> True
      | c # ds \<Rightarrow> c = CHR '':'' \<and> list_all is_digit ds)"

text \<open>\<open>validUserinfo\<close> ranges over runes; every rune outside ASCII is refused, so
  the test is the same byte by byte.\<close>

definition validUserinfo :: "string \<Rightarrow> bool" where
  "validUserinfo s =
     list_all (\<lambda>r. is_alpha r \<or> is_digit r \<or> r \<in> set ''-._:~!$&'' \<or> r = CHR 0x27 \<or>
                    r \<in> set ''()*+,;=%@'') s"

definition parseHost :: "string \<Rightarrow> url_cause + string" where
  "parseHost host =
     (if HasPrefix host ''['' then
        (case LastIndexByte host CHR '']'' of
           None \<Rightarrow> Inl MissingBracket
         | Some i \<Rightarrow>
             if \<not> validOptionalPort (drop (Suc i) host)
               then Inl (InvalidPort (drop (Suc i) host))
             else (case Index (take i host) ''%25'' of
                     Some zone \<Rightarrow>
                       (case unescape encodeHost (take zone host) of
                          Inl e \<Rightarrow> Inl e
                        | Inr host1 \<Rightarrow>
                            (case unescape encodeZone (drop zone (take i host)) of
                               Inl e \<Rightarrow> Inl e
                             | Inr host2 \<Rightarrow>
                                 (case unescape encodeHost (drop i host) of
                                    Inl e \<Rightarrow> Inl e
                                  | Inr host3 \<Rightarrow> Inr (host1 @ host2 @ host3))))
                   | None \<Rightarrow> unescape encodeHost host))
      else
        (case LastIndexByte host CHR '':'' of
           Some i \<Rightarrow>
             if \<not> validOptionalPort (drop i host) then Inl (InvalidPort (drop i host))
             else unescape encodeHost host
         | None \<Rightarrow> unescape encodeHost host))"

text \<open>\<open>parseAuthority\<close>, returning the host; the user information is validated and
  unescaped as in the source, and dropped.\<close>

definition parseAuthority :: "string \<Rightarrow> url_cause + string" where
  "parseAuthority authority =
     (case LastIndexByte authority CHR ''@'' of
        None \<Rightarrow> parseHost authority
      | Some i \<Rightarrow>
          (case parseHost (drop (Suc i) authority) of
             Inl e \<Rightarrow> Inl e
           | Inr host \<Rightarrow>
               let userinfo = take i authority in
               if \<not> validUserinfo userinfo then Inl InvalidUserinfo
               else if CHR '':'' \<notin> set userinfo then
                 (case unescape encodeUserPassword userinfo of
                    Inl e \<Rightarrow> Inl e
                  | Inr _ \<Rightarrow> Inr host)
               else
                 (case unescape encodeUserPassword (cut_before CHR '':'' userinfo) of
                    Inl e \<Rightarrow> Inl e
                  | Inr _ \<Rightarrow>
                      (case unescape encodeUserPassword (cut_after CHR '':'' userinfo) of
                         Inl e \<Rightarrow> Inl e
                       | Inr _ \<Rightarrow> Inr host))))"

text \<open>
  \<open>parse(rawURL, viaRequest = false)\<close>.  The query is cut off at the first \<open>?\<close> (both
  branches of the source's \<open>ForceQuery\<close> test leave that text in \<open>rest\<close>).
\<close>

definition parse :: "string \<Rightarrow> url_cause + URL" where
  "parse rawURL =
     (if stringContainsCTLByte rawURL then Inl InvalidControlCharacter
      else if rawURL = ''*'' then Inr \<lparr>Scheme = [], Host = [], Path = ''*''\<rparr>
      else
        (case getScheme rawURL of
           Inl e \<Rightarrow> Inl e
         | Inr (scheme0, rest0) \<Rightarrow>
             let scheme = ToLower scheme0;
                 rest = cut_before CHR ''?'' rest0
             in
             if \<not> HasPrefix rest ''/'' \<and> scheme \<noteq> []
               then Inr \<lparr>Scheme = scheme, Host = [], Path = []\<rparr>
             else if \<not> HasPrefix rest ''/'' \<and> CHR '':'' \<in> set (cut_before CHR ''/'' rest)
               then Inl FirstPathSegmentColon
             else if (scheme \<noteq> [] \<or> \<not> HasPrefix rest ''///'') \<and> HasPrefix rest ''//'' then
               (let authority0 = drop 2 rest;
                    authority = cut_before CHR ''/'' authority0;
                    rest' = dropWhile (\<lambda>c. c \<noteq> CHR ''/'') authority0
                in case parseAuthority authority of
                     Inl e \<Rightarrow> Inl e
                   | Inr host \<Rightarrow>
                       (case unescape encodePath rest' of
                          Inl e \<Rightarrow> Inl e
                        | Inr path \<Rightarrow> Inr \<lparr>Scheme = scheme, Host = host, Path = path\<rparr>))
             else
               (case unescape encodePath rest of
                  Inl e \<Rightarrow> Inl e
                | Inr path \<Rightarrow> Inr \<lparr>Scheme = scheme, Host = [], Path = path\<rparr>)))"

text \<open>
  \<open>url.Parse\<close>: the fragment is cut off at the first \<open>#\<close>, the rest is parsed, and
  a non-empty fragment must unescape.  The error names the text that failed to parse.
\<close>

definition url_Parse :: "string \<Rightarrow> error + URL" where
  "url_Parse rawURL =
     (let u = cut_before CHR ''#'' rawURL; frag = cut_after CHR ''#'' rawURL in
      case parse u of
        Inl e \<Rightarrow> Inl (UrlError u e)
      | Inr url \<Rightarrow>
          if frag = [] then Inr url
          else (case unescape encodeFragment frag of
                  Inl e \<Rightarrow> Inl (UrlError rawURL e)
                | Inr _ \<Rightarrow> Inr url))"

text \<open>\<open>splitHostPort\<close>, behind \<open>URL.Hostname\<close> and \<open>URL.Port\<close>.\<close>

definition splitHostPort :: "string \<Rightarrow> string \<times> string" where
  "splitHostPort hostPort =
     (let (host, port) =
        (case LastIndexByte hostPort CHR '':'' of
           Some colon \<Rightarrow>
             if validOptionalPort (drop colon hostPort)
               then (take colon hostPort, drop (Suc colon) hostPort)
               else (hostPort, [])
         | None \<Rightarrow> (hostPort, []))
      in if HasPrefix host ''['' \<and> host \<noteq> [] \<and> last host = CHR '']''
           then (butlast (drop 1 host), port)
           else (host, port))"

definition Hostname :: "URL \<Rightarrow> string" where
  "Hostname u = fst (splitHostPort (Host u))"

definition Port :: "URL \<Rightarrow> string" where
  "Port u = snd (splitHostPort (Host u))"

subsection \<open>\<open>strconv.Atoi\<close>\<close>

text \<open>
  \<open>strconv.Atoi\<close> with a 64-bit \<open>int\<close> (the Darwin targets): an optional sign, then
  decimal digits read left to right as \<open>ParseUint\<close> does, failing with \<open>ErrSyntax\<close> at
  a byte that is no digit and with \<open>ErrRange\<close> once the value leaves the range.
\<close>

fun ParseUint_loop :: "int \<Rightarrow> string \<Rightarrow> num_cause + int" where
  "ParseUint_loop n [] = Inr n"
| "ParseUint_loop n (c # cs) =
     (if \<not> is_digit c then Inl ErrSyntax
      else if 2 ^ 64 \<le> n * 10 + (int (byte c) - 48) then Inl ErrRange
      else ParseUint_loop (n * 10 + (int (byte c) - 48)) cs)"

definition Atoi :: "string \<Rightarrow> error + int" where
  "Atoi s =
     (let neg = HasPrefix s ''-'';
          ds = (if HasPrefix s ''+'' \<or> HasPrefix s ''-'' then drop 1 s else s)
      in if ds = [] then Inl (NumError s ErrSyntax)
         else (case ParseUint_loop 0 ds of
                 Inl ErrSyntax \<Rightarrow> Inl (NumError s ErrSyntax)
               | Inl ErrRange \<Rightarrow> Inl (NumError s ErrRange)
               | Inr un \<Rightarrow>
                   if \<not> neg \<and> 2 ^ 63 \<le> un then Inl (NumError s ErrRange)
                   else if neg \<and> 2 ^ 63 < un then Inl (NumError s ErrRange)
                   else Inr (if neg then - un else un)))"

section \<open>\<open>splitServer\<close>\<close>

text \<open>
  The C side of the binding.  A \<open>char *\<close> is modelled by the NUL-terminated string it
  points to: \<open>C.CString(s)\<close> copies the bytes of \<open>s\<close> and appends a NUL, so what a callee
  that is given the pointer reads is \<open>s\<close> up to its first NUL byte.
\<close>

definition CString :: "string \<Rightarrow> string" where
  "CString s = takeWhile (\<lambda>c. c \<noteq> CHR 0x00) s"

datatype SecProtocolType = kSecProtocolTypeHTTP | kSecProtocolTypeHTTPS

text \<open>\<open>struct Server\<close>; \<open>port\<close> is a C \<open>unsigned int\<close>.\<close>

record Server =
  proto :: SecProtocolType
  host :: string
  port :: "32 word"
  path :: string

text \<open>Lines 143 to 145: the text handed to \<open>url.Parse\<close>.\<close>

definition prependSlashes :: "string \<Rightarrow> string" where
  "prependSlashes serverURL =
     (if \<not> scheme_regexp_match serverURL then ''//'' @ serverURL else serverURL)"

definition splitServer :: "string \<Rightarrow> error + Server" where
  "splitServer serverURL =
     (case url_Parse (prependSlashes serverURL) of
        Inl err \<Rightarrow> Inl err
      | Inr u \<Rightarrow>
          if Scheme u \<noteq> [] \<and> Scheme u \<noteq> ''https'' \<and> Scheme u \<noteq> ''http''
            then Inl (ErrorString (''unsupported scheme: '' @ Scheme u))
          else if Hostname u = [] then Inl (ErrorString ''no hostname in URL'')
          else
            (let pr = (if Scheme u = ''http'' then kSecProtocolTypeHTTP
                       else kSecProtocolTypeHTTPS)
             in if Port u \<noteq> [] then
                  (case Atoi (Port u) of
                     Inl err \<Rightarrow> Inl err
                   | Inr n \<Rightarrow>
                       Inr \<lparr>proto = pr, host = CString (Host u),
                            port = word_of_int n, path = CString (Path u)\<rparr>)
                else
                  Inr \<lparr>proto = pr, host = CString (Host u),
                       port = 0, path = CString (Path u)\<rparr>))"

section \<open>The keychain operations\<close>

text \<open>
  The four C primitives \<open>keychain_add\<close>, \<open>keychain_delete\<close>, \<open>keychain_get\<close> and
  \<open>keychain_list\<close> are parameters of the operations: each takes the state \<open>'s\<close> of the
  keychain and returns the state it leaves.  An error message (\<open>char *\<close>, \<open>NULL\<close> on
  success) is a \<open>string option\<close>.  \<open>keychain_get\<close> hands back two buffers with their
  lengths; each (pointer, length) pair is modelled as the bytes it holds, which is what
  \<open>C.GoStringN\<close> reads.  \<open>keychain_list\<close> hands back two arrays of C strings and their
  common length \<open>listLen\<close>; the arrays are modelled as lists, and the Go slices laid
  over them are read at the indices below \<open>listLen\<close>.
\<close>

type_synonym 's prim_add = "Server \<Rightarrow> string \<Rightarrow> string \<Rightarrow> string \<Rightarrow> 's \<Rightarrow> string option \<times> 's"
type_synonym 's prim_delete = "Server \<Rightarrow> 's \<Rightarrow> string option \<times> 's"
type_synonym 's prim_get = "Server \<Rightarrow> 's \<Rightarrow> (string + string \<times> string) \<times> 's"
type_synonym 's prim_list = "string \<Rightarrow> 's \<Rightarrow> (string + string list \<times> string list \<times> nat) \<times> 's"

record Credentials =
  ServerURL :: string
  Username :: string
  Secret :: string

definition errCredentialsNotFound :: string where
  "errCredentialsNotFound = ''The specified item could not be found in the keychain.''"

definition Delete :: "'s prim_delete \<Rightarrow> string \<Rightarrow> 's \<Rightarrow> error option \<times> 's" where
  "Delete kdelete serverURL st =
     (case splitServer serverURL of
        Inl err \<Rightarrow> (Some err, st)
      | Inr s \<Rightarrow>
          (case kdelete s st of
             (Some errMsg, st') \<Rightarrow> (Some (ErrorString errMsg), st')
           | (None, st') \<Rightarrow> (None, st')))"

text \<open>\<open>Add\<close>; \<open>credsLabel\<close> is \<open>credentials.CredsLabel\<close>, a value of the package
  \<open>credentials\<close>.  The result of the first \<open>Delete\<close> is dropped, the state it leaves
  is kept.\<close>

definition Add :: "'s prim_delete \<Rightarrow> 's prim_add \<Rightarrow> string \<Rightarrow> Credentials \<Rightarrow> 's \<Rightarrow> error option \<times> 's" where
  "Add kdelete kadd credsLabel creds st =
     (case Delete kdelete (ServerURL creds) st of
        (_, st1) \<Rightarrow>
          (case splitServer (ServerURL creds) of
             Inl err \<Rightarrow> (Some err, st1)
           | Inr s \<Rightarrow>
               (case kadd s (CString credsLabel) (CString (Username creds))
                       (CString (Secret creds)) st1 of
                  (Some errMsg, st2) \<Rightarrow> (Some (ErrorString errMsg), st2)
                | (None, st2) \<Rightarrow> (None, st2))))"

definition Get :: "'s prim_get \<Rightarrow> string \<Rightarrow> 's \<Rightarrow> (error + string \<times> string) \<times> 's" where
  "Get kget serverURL st =
     (case splitServer serverURL of
        Inl err \<Rightarrow> (Inl err, st)
      | Inr s \<Rightarrow>
          (case kget s st of
             (Inl goMsg, st') \<Rightarrow>
               if goMsg = errCredentialsNotFound then (Inl ErrCredentialsNotFound, st')
               else (Inl (ErrorString goMsg), st')
           | (Inr (user, pass), st') \<Rightarrow> (Inr (user, pass), st')))"

text \<open>The loop of \<open>List\<close> over \<open>i = 0, ..., listLen - 1\<close>.\<close>

function List_loop ::
  "string list \<Rightarrow> string list \<Rightarrow> nat \<Rightarrow> nat \<Rightarrow> (string \<rightharpoonup> string) \<Rightarrow> (string \<rightharpoonup> string)" where
  "List_loop pathTmp acctTmp listLen i resp =
     (if i < listLen then
        (if pathTmp ! i = ''0'' then List_loop pathTmp acctTmp listLen (Suc i) resp
         else List_loop pathTmp acctTmp listLen (Suc i) (resp(pathTmp ! i \<mapsto> acctTmp ! i)))
      else resp)"
  by pat_completeness auto
termination
  by (relation "measure (\<lambda>(pathTmp, acctTmp, listLen, i, resp). listLen - i)") auto

declare List_loop.simps [simp del]

definition List :: "'s prim_list \<Rightarrow> string \<Rightarrow> 's \<Rightarrow> (error + (string \<rightharpoonup> string)) \<times> 's" where
  "List klist credsLabel st =
     (case klist (CString credsLabel) st of
        (Inl goMsg, st') \<Rightarrow> (Inl (ErrorString goMsg), st')
      | (Inr (paths, accts, listLen), st') \<Rightarrow>
          (Inr (List_loop paths accts listLen 0 Map.empty), st'))"

section \<open>The keychain\<close>

text \<open>
  Modelled from the spec: the keychain that the C primitives of \<open>osxkeychain_darwin.c\<close>
  work on; that file is not among the sources at hand.  The store holds at most one entry
  per normalized server key (protocol, host, port, path); an entry carries the
  application label, the account and the secret.
\<close>

record item =
  item_label :: string
  item_account :: string
  item_secret :: string

type_synonym keychain = "Server \<rightharpoonup> item"

text \<open>
  Modelled from the spec: \<open>keychain_add\<close>, the platform add-entry primitive, missing with
  \<open>osxkeychain_darwin.c\<close>.  It stores the entry under the key; under a key that is taken
  it fails and changes nothing (which is why \<open>Add\<close> deletes first).
\<close>

definition keychain_add :: "keychain prim_add" where
  "keychain_add s lbl username secret st =
     (case st s of
        Some _ \<Rightarrow> (Some ''The specified item already exists in the keychain.'', st)
      | None \<Rightarrow>
          (None, st(s \<mapsto> \<lparr>item_label = lbl, item_account = username, item_secret = secret\<rparr>)))"

text \<open>
  Modelled from the spec: \<open>keychain_delete\<close>, the platform delete-entry primitive, missing
  with \<open>osxkeychain_darwin.c\<close>.  It removes the entry under the key; for a key that is
  absent it reports the platform's not-found message and changes nothing.
\<close>

definition keychain_delete :: "keychain prim_delete" where
  "keychain_delete s st =
     (case st s of
        None \<Rightarrow> (Some errCredentialsNotFound, st)
      | Some _ \<Rightarrow> (None, st(s := None)))"

text \<open>
  Modelled from the spec: \<open>keychain_get\<close>, the platform lookup primitive, missing with
  \<open>osxkeychain_darwin.c\<close>.  It returns the account and the secret stored under the key;
  for a key that is absent it reports the message the source names
  \<open>errCredentialsNotFound\<close>, "the specific error message returned by OS X when the
  credentials are not in the keychain".
\<close>

definition keychain_get :: "keychain prim_get" where
  "keychain_get s st =
     (case st s of
        None \<Rightarrow> (Inl errCredentialsNotFound, st)
      | Some it \<Rightarrow> (Inr (item_account it, item_secret it), st))"

subsection \<open>Recording the calls\<close>

text \<open>To state which primitives an operation invokes, a primitive can be wrapped so that
  it appends its call to a trace kept beside the keychain state.\<close>

datatype call =
    Call_keychain_delete Server
  | Call_keychain_add Server string string string

definition traced_delete :: "'s prim_delete \<Rightarrow> (call list \<times> 's) prim_delete" where
  "traced_delete kdelete s tst =
     (case kdelete s (snd tst) of
        (r, st') \<Rightarrow> (r, (fst tst @ [Call_keychain_delete s], st')))"

definition traced_add :: "'s prim_add \<Rightarrow> (call list \<times> 's) prim_add" where
  "traced_add kadd s lbl username secret tst =
     (case kadd s lbl username secret (snd tst) of
        (r, st') \<Rightarrow> (r, (fst tst @ [Call_keychain_add s lbl username secret], st')))"

section \<open>Auxiliary facts\<close>

text \<open>The definitions that evaluate \<open>splitServer\<close> on a concrete text.\<close>

lemmas eval_defs = byte_def is_lower_def is_upper_def is_alpha_def is_digit_def lower_char_def ToLower_def HasPrefix_def cut_before_def cut_after_def scheme_class_def scheme_regexp_match_def stringContainsCTLByte_def getScheme_def ishex_def unhex_def shouldEscape_host_def validOptionalPort_def validUserinfo_def parseHost_def parseAuthority_def parse_def url_Parse_def splitHostPort_def Hostname_def Port_def Atoi_def CString_def prependSlashes_def splitServer_def char_of_def

lemma url_Parse_Inl: "url_Parse s = Inl e \<Longrightarrow> \<exists>t c. e = UrlError t c"
  by (auto simp: url_Parse_def Let_def split: sum.splits if_splits)

lemma Atoi_Inl: "Atoi s = Inl e \<Longrightarrow> \<exists>c. e = NumError s c"
  by (auto simp: Atoi_def Let_def split: sum.splits if_splits num_cause.splits)

lemma splitServer_Inl:
  "splitServer serverURL = Inl e \<Longrightarrow>
     (\<exists>t c. e = UrlError t c) \<or> (\<exists>m. e = ErrorString m) \<or> (\<exists>n c. e = NumError n c)"
  by (auto simp: splitServer_def Let_def split: sum.splits if_splits dest: url_Parse_Inl Atoi_Inl)

lemma getScheme_slash: "getScheme (CHR ''/'' # s) = Inr ([], CHR ''/'' # s)"
  by (simp add: getScheme_def is_alpha_def is_lower_def is_upper_def is_digit_def byte_def)

lemma parse_slash_Scheme: "parse (CHR ''/'' # s) = Inr u \<Longrightarrow> Scheme u = []"
  by (auto simp: parse_def getScheme_slash Let_def ToLower_def split: if_splits sum.splits)

lemma url_Parse_slashes_Scheme: "url_Parse (''//'' @ s) = Inr u \<Longrightarrow> Scheme u = []"
  by (auto simp: url_Parse_def Let_def cut_before_def split: sum.splits if_splits dest: parse_slash_Scheme)






lemma CString_id: "CHR 0x00 \<notin> set s \<Longrightarrow> CString s = s"
  by (auto simp: CString_def)

lemma snd_keychain_delete: "snd (keychain_delete s st) = st(s := None)"
  by (auto simp: keychain_delete_def split: option.splits)

lemma Add_Inr:
  "splitServer (ServerURL creds) = Inr s \<Longrightarrow>
   Add kdelete kadd credsLabel creds st =
     (map_option ErrorString
        (fst (kadd s (CString credsLabel) (CString (Username creds)) (CString (Secret creds))
                (snd (kdelete s st)))),
      snd (kadd s (CString credsLabel) (CString (Username creds)) (CString (Secret creds))
             (snd (kdelete s st))))"
  by (auto simp: Add_def Delete_def split: prod.splits option.splits)

lemma Add_Inl:
  "splitServer (ServerURL creds) = Inl err \<Longrightarrow> Add kdelete kadd credsLabel creds st = (Some err, st)"
  by (simp add: Add_def Delete_def)

lemma Add_keychain:
  "splitServer (ServerURL creds) = Inr s \<Longrightarrow>
   Add keychain_delete keychain_add credsLabel creds st =
     (None, st(s \<mapsto> \<lparr>item_label = CString credsLabel, item_account = CString (Username creds),
                        item_secret = CString (Secret creds)\<rparr>))"
  by (simp add: Add_Inr snd_keychain_delete keychain_add_def)

lemma Get_keychain:
  "splitServer serverURL = Inr s \<Longrightarrow> st s = Some it \<Longrightarrow>
   Get keychain_get serverURL st = (Inr (item_account it, item_secret it), st)"
  by (simp add: Get_def keychain_get_def)

lemma keychain_delete_atomic: "keychain_delete s st = (Some msg, st') \<Longrightarrow> st' = st"
  by (auto simp: keychain_delete_def split: option.splits)

lemma keychain_add_atomic: "keychain_add s l u p st = (Some msg, st') \<Longrightarrow> st' = st"
  by (auto simp: keychain_add_def split: option.splits)

lemma keychain_get_atomic: "keychain_get s st = (r, st') \<Longrightarrow> st' = st"
  by (auto simp: keychain_get_def split: option.splits)

lemma HasPrefix_slashes: "HasPrefix t ''//'' \<Longrightarrow> t = ''//'' @ drop 2 t"
  by (cases t; cases "tl t") (auto simp: HasPrefix_def)

lemma splitServer_Inr_iff:
  "(\<exists>s. splitServer serverURL = Inr s) \<longleftrightarrow>
   (\<exists>u. url_Parse (prependSlashes serverURL) = Inr u \<and>
        (Scheme u = [] \<or> Scheme u = ''http'' \<or> Scheme u = ''https'') \<and>
        Hostname u \<noteq> [] \<and> (Port u = [] \<or> (\<exists>n. Atoi (Port u) = Inr n)))"
  by (auto simp: splitServer_def Let_def split: sum.splits if_splits)

lemma splitServer_proto:
  "splitServer serverURL = Inr s \<Longrightarrow> url_Parse (prependSlashes serverURL) = Inr u \<Longrightarrow>
   proto s = (if Scheme u = ''http'' then kSecProtocolTypeHTTP else kSecProtocolTypeHTTPS)"
  by (auto simp: splitServer_def Let_def split: sum.splits if_splits)



















text \<open>The loop of \<open>List\<close>, one step at a time.\<close>

lemma List_loop_skip:
  "i < n \<Longrightarrow> paths ! i = ''0'' \<Longrightarrow>
   List_loop paths accts n i resp = List_loop paths accts n (Suc i) resp"
  by (subst List_loop.simps) simp

lemma List_loop_put:
  "i < n \<Longrightarrow> paths ! i \<noteq> ''0'' \<Longrightarrow>
   List_loop paths accts n i resp = List_loop paths accts n (Suc i) (resp(paths ! i \<mapsto> accts ! i))"
  by (subst List_loop.simps) simp

lemma List_loop_done: "\<not> i < n \<Longrightarrow> List_loop paths accts n i resp = resp"
  by (subst List_loop.simps) simp

lemma List_loop_other:
  "(\<And>j. i \<le> j \<Longrightarrow> j < n \<Longrightarrow> paths ! j \<noteq> k) \<Longrightarrow> List_loop paths accts n i resp k = resp k"
proof (induction paths accts n i resp rule: List_loop.induct)
  case (1 pathTmp acctTmp listLen i resp)
  show ?case
  proof (cases "i < listLen")
    case True
    have ne: "pathTmp ! i \<noteq> k" using "1.prems" [of i] True by simp
    have rest: "\<And>j. Suc i \<le> j \<Longrightarrow> j < listLen \<Longrightarrow> pathTmp ! j \<noteq> k"
      using "1.prems" by simp
    show ?thesis
    proof (cases "pathTmp ! i = ''0''")
      case z: True
      have "List_loop pathTmp acctTmp listLen (Suc i) resp k = resp k"
        using "1.IH"(1) [OF True z rest] .
      then show ?thesis by (simp only: List_loop_skip [OF True z])
    next
      case nz: False
      have "List_loop pathTmp acctTmp listLen (Suc i) (resp(pathTmp ! i \<mapsto> acctTmp ! i)) k
              = (resp(pathTmp ! i \<mapsto> acctTmp ! i)) k"
        using "1.IH"(2) [OF True nz rest] .
      also have "\<dots> = resp k" using ne by simp
      finally show ?thesis by (simp only: List_loop_put [OF True nz])
    qed
  next
    case False
    then show ?thesis by (simp add: List_loop_done)
  qed
qed

lemma List_loop_sentinel:
  "List_loop paths accts n i resp ''0'' = resp ''0''"
proof (induction paths accts n i resp rule: List_loop.induct)
  case (1 pathTmp acctTmp listLen i resp)
  show ?case
  proof (cases "i < listLen")
    case True
    show ?thesis
    proof (cases "pathTmp ! i = ''0''")
      case z: True
      from "1.IH"(1) [OF True z] show ?thesis by (simp only: List_loop_skip [OF True z])
    next
      case nz: False
      have "List_loop pathTmp acctTmp listLen (Suc i) (resp(pathTmp ! i \<mapsto> acctTmp ! i)) ''0''
              = (resp(pathTmp ! i \<mapsto> acctTmp ! i)) ''0''"
        using "1.IH"(2) [OF True nz] .
      also have "\<dots> = resp ''0''" using nz by simp
      finally show ?thesis by (simp only: List_loop_put [OF True nz])
    qed
  next
    case False
    then show ?thesis by (simp add: List_loop_done)
  qed
qed

lemma List_loop_last:
  "i \<le> m \<Longrightarrow> m < n \<Longrightarrow> paths ! m \<noteq> ''0'' \<Longrightarrow>
   (\<And>j. m < j \<Longrightarrow> j < n \<Longrightarrow> paths ! j \<noteq> paths ! m) \<Longrightarrow>
   List_loop paths accts n i resp (paths ! m) = Some (accts ! m)"
proof (induction paths accts n i resp rule: List_loop.induct)
  case (1 pathTmp acctTmp listLen i resp)
  have lt: "i < listLen" using "1.prems" by simp
  show ?case
  proof (cases "i = m")
    case True
    have later: "\<And>j. Suc m \<le> j \<Longrightarrow> j < listLen \<Longrightarrow> pathTmp ! j \<noteq> pathTmp ! m"
      using "1.prems"(4) by simp
    have "List_loop pathTmp acctTmp listLen (Suc m) (resp(pathTmp ! m \<mapsto> acctTmp ! m)) (pathTmp ! m)
            = (resp(pathTmp ! m \<mapsto> acctTmp ! m)) (pathTmp ! m)"
      using later by (rule List_loop_other)
    also have "\<dots> = Some (acctTmp ! m)" by simp
    finally show ?thesis
      using List_loop_put [OF "1.prems"(2,3), of acctTmp resp] True by simp
  next
    case False
    then have le: "Suc i \<le> m" using "1.prems"(1) by simp
    show ?thesis
    proof (cases "pathTmp ! i = ''0''")
      case z: True
      from "1.IH"(1) [OF lt z le "1.prems"(2,3,4)]
      show ?thesis by (simp only: List_loop_skip [OF lt z])
    next
      case nz: False
      from "1.IH"(2) [OF lt nz le "1.prems"(2,3,4)]
      show ?thesis by (simp only: List_loop_put [OF lt nz])
    qed
  qed
qed

lemma List_loop_origin:
  "List_loop paths accts n i resp k = Some a \<Longrightarrow>
   resp k = Some a \<or> (\<exists>j. i \<le> j \<and> j < n \<and> paths ! j = k \<and> accts ! j = a)"
proof (induction paths accts n i resp rule: List_loop.induct)
  case (1 pathTmp acctTmp listLen i resp)
  show ?case
  proof (cases "i < listLen")
    case True
    show ?thesis
    proof (cases "pathTmp ! i = ''0''")
      case z: True
      have "List_loop pathTmp acctTmp listLen (Suc i) resp k = Some a"
        using "1.prems" by (simp only: List_loop_skip [OF True z])
      from "1.IH"(1) [OF True z this] show ?thesis
        using Suc_leD by blast
    next
      case nz: False
      have "List_loop pathTmp acctTmp listLen (Suc i) (resp(pathTmp ! i \<mapsto> acctTmp ! i)) k = Some a"
        using "1.prems" by (simp only: List_loop_put [OF True nz])
      from "1.IH"(2) [OF True nz this]
      have "(resp(pathTmp ! i \<mapsto> acctTmp ! i)) k = Some a \<or>
            (\<exists>j. Suc i \<le> j \<and> j < listLen \<and> pathTmp ! j = k \<and> acctTmp ! j = a)" .
      then show ?thesis
      proof
        assume "(resp(pathTmp ! i \<mapsto> acctTmp ! i)) k = Some a"
        then have "resp k = Some a \<or> (pathTmp ! i = k \<and> acctTmp ! i = a)"
          by (cases "k = pathTmp ! i") simp_all
        then show ?thesis using True by blast
      next
        assume "\<exists>j. Suc i \<le> j \<and> j < listLen \<and> pathTmp ! j = k \<and> acctTmp ! j = a"
        then show ?thesis using Suc_leD by blast
      qed
    qed
  next
    case False
    then show ?thesis using "1.prems" by (simp add: List_loop_done)
  qed
qed

lemma List_loop_closed:
  "i \<le> n \<Longrightarrow> length paths = n \<Longrightarrow> length accts = n \<Longrightarrow>
   List_loop paths accts n i resp =
     resp ++ map_of (rev (filter (\<lambda>(k, a). k \<noteq> ''0'') (drop i (zip paths accts))))"
proof (induction paths accts n i resp rule: List_loop.induct)
  case (1 pathTmp acctTmp listLen i resp)
  show ?case
  proof (cases "i < listLen")
    case True
    have d: "drop i (zip pathTmp acctTmp) = (pathTmp ! i, acctTmp ! i) # drop (Suc i) (zip pathTmp acctTmp)"
      using True "1.prems" by (simp add: Cons_nth_drop_Suc [symmetric])
    have le: "Suc i \<le> listLen" using True by simp
    show ?thesis
    proof (cases "pathTmp ! i = ''0''")
      case z: True
      show ?thesis
        using "1.IH"(1) [OF True z le "1.prems"(2,3)] z
        by (simp only: List_loop_skip [OF True z] d) simp
    next
      case nz: False
      have "List_loop pathTmp acctTmp listLen i resp =
            resp(pathTmp ! i \<mapsto> acctTmp ! i) ++
              map_of (rev (filter (\<lambda>(k, a). k \<noteq> ''0'') (drop (Suc i) (zip pathTmp acctTmp))))"
        using "1.IH"(2) [OF True nz le "1.prems"(2,3)]
        by (simp only: List_loop_put [OF True nz])
      also have "\<dots> = resp ++ map_of (rev (filter (\<lambda>(k, a). k \<noteq> ''0'') (drop i (zip pathTmp acctTmp))))"
        unfolding d using nz by simp
      finally show ?thesis .
    qed
  next
    case False
    then have "drop i (zip pathTmp acctTmp) = []" using "1.prems" by simp
    with False show ?thesis by (simp add: List_loop_done)
  qed
qed

section \<open>Normalization\<close>

text \<open>
  Claim C5, as amended.  A serverURL lacks a scheme when the text handed to \<open>url.Parse\<close>
  starts with \<open>//\<close>: the scheme test failed and \<open>//\<close> was put in front, or the
  serverURL starts with \<open>//\<close> itself.  For every such serverURL \<open>splitServer\<close> succeeds
  if and only if that text parses as a URL, its hostname is not empty, and its port is
  absent or fits an \<open>int\<close>; on success the protocol is HTTPS; a URL that parses with an
  empty hostname gives the missing-host error; and so do \<open>https://\<close> and the empty
  string.
\<close>

theorem splitServer_without_scheme:
  assumes "HasPrefix (prependSlashes serverURL) ''//''"
  shows "((\<exists>s. splitServer serverURL = Inr s) \<longleftrightarrow>
            (\<exists>u. url_Parse (prependSlashes serverURL) = Inr u \<and> Hostname u \<noteq> [] \<and>
                 (Port u = [] \<or> (\<exists>n. Atoi (Port u) = Inr n)))) \<and>
         (\<forall>s. splitServer serverURL = Inr s \<longrightarrow> proto s = kSecProtocolTypeHTTPS) \<and>
         (\<forall>u. url_Parse (prependSlashes serverURL) = Inr u \<and> Hostname u = [] \<longrightarrow>
              splitServer serverURL = Inl (ErrorString ''no hostname in URL'')) \<and>
         splitServer ''https://'' = Inl (ErrorString ''no hostname in URL'') \<and>
         splitServer [] = Inl (ErrorString ''no hostname in URL'')"
proof -
  have sch: "Scheme u = []" if "url_Parse (prependSlashes serverURL) = Inr u" for u
    using that HasPrefix_slashes [OF assms] url_Parse_slashes_Scheme by metis
  have a: "(\<exists>s. splitServer serverURL = Inr s) \<longleftrightarrow>
            (\<exists>u. url_Parse (prependSlashes serverURL) = Inr u \<and> Hostname u \<noteq> [] \<and>
                 (Port u = [] \<or> (\<exists>n. Atoi (Port u) = Inr n)))"
    unfolding splitServer_Inr_iff using sch by blast
  have b: "proto s = kSecProtocolTypeHTTPS" if "splitServer serverURL = Inr s" for s
  proof -
    from that obtain u where u: "url_Parse (prependSlashes serverURL) = Inr u"
      using splitServer_Inr_iff [of serverURL] by blast
    then have "Scheme u = []" using sch by simp
    with splitServer_proto [OF that u] show ?thesis by simp
  qed
  have c: "splitServer serverURL = Inl (ErrorString ''no hostname in URL'')"
    if "url_Parse (prependSlashes serverURL) = Inr u \<and> Hostname u = []" for u
    using that sch [of u] by (simp add: splitServer_def)
  have d: "splitServer ''https://'' = Inl (ErrorString ''no hostname in URL'')"
    by (simp add: eval_defs)
  have e: "splitServer [] = Inl (ErrorString ''no hostname in URL'')"
    by (simp add: eval_defs)
  from a b c d e show ?thesis by blast
qed

text \<open>The theorem at \<open>registry.example.com:5000/v1\<close>, which normalizes, and at
  \<open>:5000/v1\<close>, which has no hostname.\<close>

theorem splitServer_without_scheme_witness:
  "HasPrefix (prependSlashes ''registry.example.com:5000/v1'') ''//'' \<and>
   splitServer ''registry.example.com:5000/v1'' =
     Inr \<lparr>proto = kSecProtocolTypeHTTPS, host = ''registry.example.com:5000'', port = 5000, path = ''/v1''\<rparr> \<and>
   proto \<lparr>proto = kSecProtocolTypeHTTPS, host = ''registry.example.com:5000'', port = 5000, path = ''/v1''\<rparr>
     = kSecProtocolTypeHTTPS \<and>
   HasPrefix (prependSlashes '':5000/v1'') ''//'' \<and>
   url_Parse (prependSlashes '':5000/v1'') = Inr \<lparr>Scheme = [], Host = '':5000'', Path = ''/v1''\<rparr> \<and>
   splitServer '':5000/v1'' = Inl (ErrorString ''no hostname in URL'')"
proof -
  have m: "HasPrefix (prependSlashes ''registry.example.com:5000/v1'') ''//''"
    by (simp add: eval_defs)
  have n: "splitServer ''registry.example.com:5000/v1'' =
     Inr \<lparr>proto = kSecProtocolTypeHTTPS, host = ''registry.example.com:5000'', port = 5000, path = ''/v1''\<rparr>"
    by (simp add: eval_defs)
  have m': "HasPrefix (prependSlashes '':5000/v1'') ''//''"
    by (simp add: eval_defs)
  have p': "url_Parse (prependSlashes '':5000/v1'') = Inr \<lparr>Scheme = [], Host = '':5000'', Path = ''/v1''\<rparr>"
    by (simp add: eval_defs)
  have h': "Hostname \<lparr>Scheme = [], Host = '':5000'', Path = ''/v1''\<rparr> = []"
    by (simp add: eval_defs)
  show ?thesis
    using m n m' p' h' splitServer_without_scheme [OF m] splitServer_without_scheme [OF m']
    by simp
qed

text \<open>
  Claim C5 as stated says that a serverURL with no scheme normalizes whenever a host can
  be extracted.  \<open>host:99999999999999999999\<close> has no scheme and the hostname \<open>host\<close>, and
  \<open>splitServer\<close> fails on it: the port does not fit an \<open>int\<close>.
\<close>

theorem splitServer_without_scheme_counterexample:
  "\<not> scheme_regexp_match ''host:99999999999999999999'' \<and>
   prependSlashes ''host:99999999999999999999'' = ''//host:99999999999999999999'' \<and>
   url_Parse ''//host:99999999999999999999''
     = Inr \<lparr>Scheme = [], Host = ''host:99999999999999999999'', Path = []\<rparr> \<and>
   Hostname \<lparr>Scheme = [], Host = ''host:99999999999999999999'', Path = []\<rparr> = ''host'' \<and>
   splitServer ''host:99999999999999999999'' = Inl (NumError ''99999999999999999999'' ErrRange)"
  by (simp add: eval_defs)

text \<open>
  Claim C6.  When the text handed to \<open>url.Parse\<close> parses with a scheme that is neither
  empty, \<open>http\<close> nor \<open>https\<close>, \<open>splitServer\<close> fails with the unsupported-scheme
  error; whenever \<open>splitServer\<close> succeeds the parsed scheme is one of the three; and
  \<open>ftp://host\<close> is refused.
\<close>

theorem splitServer_unsupported_scheme:
  "(url_Parse (prependSlashes serverURL) = Inr u \<and>
      Scheme u \<noteq> [] \<and> Scheme u \<noteq> ''http'' \<and> Scheme u \<noteq> ''https'' \<longrightarrow>
        splitServer serverURL = Inl (ErrorString (''unsupported scheme: '' @ Scheme u))) \<and>
   (splitServer serverURL = Inr s \<longrightarrow>
      (\<exists>u. url_Parse (prependSlashes serverURL) = Inr u \<and>
           (Scheme u = [] \<or> Scheme u = ''http'' \<or> Scheme u = ''https''))) \<and>
   splitServer ''ftp://host'' = Inl (ErrorString ''unsupported scheme: ftp'')"
proof -
  have "splitServer ''ftp://host'' = Inl (ErrorString ''unsupported scheme: ftp'')"
    by (simp add: eval_defs)
  then show ?thesis
    by (auto simp: splitServer_def Let_def split: sum.splits if_splits)
qed

text \<open>The theorem at \<open>gopher://registry.example.com/x\<close>; an upper-case \<open>HTTP\<close> is
  accepted, as the parser lower-cases the scheme.\<close>

theorem splitServer_unsupported_scheme_witness:
  "url_Parse (prependSlashes ''gopher://registry.example.com/x'')
     = Inr \<lparr>Scheme = ''gopher'', Host = ''registry.example.com'', Path = ''/x''\<rparr> \<and>
   splitServer ''gopher://registry.example.com/x'' = Inl (ErrorString ''unsupported scheme: gopher'') \<and>
   splitServer ''HTTP://registry.example.com''
     = Inr \<lparr>proto = kSecProtocolTypeHTTP, host = ''registry.example.com'', port = 0, path = []\<rparr> \<and>
   (\<exists>u. url_Parse (prependSlashes ''HTTP://registry.example.com'') = Inr u \<and>
        (Scheme u = [] \<or> Scheme u = ''http'' \<or> Scheme u = ''https''))"
proof -
  have p: "url_Parse (prependSlashes ''gopher://registry.example.com/x'')
     = Inr \<lparr>Scheme = ''gopher'', Host = ''registry.example.com'', Path = ''/x''\<rparr>"
    by (simp add: eval_defs)
  have q: "splitServer ''HTTP://registry.example.com''
     = Inr \<lparr>proto = kSecProtocolTypeHTTP, host = ''registry.example.com'', port = 0, path = []\<rparr>"
    by code_simp
  show ?thesis
    using p q
      splitServer_unsupported_scheme [of "''gopher://registry.example.com/x''"
        "\<lparr>Scheme = ''gopher'', Host = ''registry.example.com'', Path = ''/x''\<rparr>"]
      splitServer_unsupported_scheme [of "''HTTP://registry.example.com''" _
        "\<lparr>proto = kSecProtocolTypeHTTP, host = ''registry.example.com'', port = 0, path = []\<rparr>"]
    by simp
qed




section \<open>Round trip through the keychain\<close>

text \<open>
  Claim C1, as amended.  For every credential whose serverURL normalizes successfully and
  whose username and secret hold no NUL byte, \<open>Add\<close> on the modelled keychain succeeds
  and a following \<open>Get\<close> with the same serverURL returns exactly that username and
  secret.
\<close>

theorem Add_Get_roundtrip:
  assumes "splitServer serverURL = Inr s"
    and "CHR 0x00 \<notin> set username" and "CHR 0x00 \<notin> set secret"
  shows "fst (Add keychain_delete keychain_add credsLabel
                \<lparr>ServerURL = serverURL, Username = username, Secret = secret\<rparr> st) = None \<and>
         fst (Get keychain_get serverURL
                (snd (Add keychain_delete keychain_add credsLabel
                   \<lparr>ServerURL = serverURL, Username = username, Secret = secret\<rparr> st)))
           = Inr (username, secret)"
proof -
  have cs: "CString username = username" "CString secret = secret"
    using assms(2,3) by (simp_all add: CString_id)
  show ?thesis
    using assms(1) by (simp add: Add_keychain Get_keychain cs)
qed

text \<open>The theorem at a concrete credential.\<close>

theorem Add_Get_roundtrip_witness:
  "splitServer ''registry.example.com'' = Inr \<lparr>proto = kSecProtocolTypeHTTPS, host = ''registry.example.com'', port = 0, path = []\<rparr> \<and>
   fst (Get keychain_get ''registry.example.com''
          (snd (Add keychain_delete keychain_add ''Docker Credentials''
             \<lparr>ServerURL = ''registry.example.com'', Username = ''alice'', Secret = ''s3cret''\<rparr> Map.empty)))
     = Inr (''alice'', ''s3cret'')"
proof -
  have n: "splitServer ''registry.example.com'' = Inr \<lparr>proto = kSecProtocolTypeHTTPS, host = ''registry.example.com'', port = 0, path = []\<rparr>"
    by (simp add: eval_defs)
  have u: "CHR 0x00 \<notin> set ''alice''" and p: "CHR 0x00 \<notin> set ''s3cret''" by simp_all
  show ?thesis using n Add_Get_roundtrip [OF n u p] by simp
qed

text \<open>
  Claim C1 as stated fails for a username with a NUL byte: \<open>C.CString\<close> hands the
  primitive a C string, which ends at the first NUL, so the username made of \<open>a\<close>, a NUL byte and \<open>b\<close>
  comes back as \<open>a\<close>.
\<close>

theorem Add_Get_roundtrip_counterexample:
  "splitServer ''host'' = Inr \<lparr>proto = kSecProtocolTypeHTTPS, host = ''host'', port = 0, path = []\<rparr> \<and>
   fst (Add keychain_delete keychain_add ''Docker Credentials''
          \<lparr>ServerURL = ''host'', Username = [CHR ''a'', CHR 0x00, CHR ''b''], Secret = ''s''\<rparr> Map.empty) = None \<and>
   fst (Get keychain_get ''host''
          (snd (Add keychain_delete keychain_add ''Docker Credentials''
             \<lparr>ServerURL = ''host'', Username = [CHR ''a'', CHR 0x00, CHR ''b''], Secret = ''s''\<rparr> Map.empty)))
     = Inr (''a'', ''s'') \<and>
   (''a'', ''s'') \<noteq> ([CHR ''a'', CHR 0x00, CHR ''b''], ''s'')"
proof -
  have n: "splitServer ''host'' = Inr \<lparr>proto = kSecProtocolTypeHTTPS, host = ''host'', port = 0, path = []\<rparr>"
    by (simp add: eval_defs)
  show ?thesis
    by (simp add: n Add_def Delete_def Get_def keychain_add_def keychain_delete_def keychain_get_def CString_def)
qed

text \<open>
  Claim C2, as amended.  For every serverURL that normalizes successfully and every two
  credentials with that serverURL, the second with no NUL byte in its username and
  secret, \<open>Add\<close> of the first and then \<open>Add\<close> of the second leaves a keychain in which
  \<open>Get\<close> returns the second credential's username and secret.
\<close>

theorem Add_Add_Get_overwrite:
  assumes "splitServer serverURL = Inr s"
    and "CHR 0x00 \<notin> set username2" and "CHR 0x00 \<notin> set secret2"
  shows "fst (Get keychain_get serverURL
           (snd (Add keychain_delete keychain_add credsLabel
              \<lparr>ServerURL = serverURL, Username = username2, Secret = secret2\<rparr>
              (snd (Add keychain_delete keychain_add credsLabel
                 \<lparr>ServerURL = serverURL, Username = username1, Secret = secret1\<rparr> st)))))
         = Inr (username2, secret2)"
proof -
  have cs: "CString username2 = username2" "CString secret2 = secret2"
    using assms(2,3) by (simp_all add: CString_id)
  show ?thesis
    using assms(1) by (simp add: Add_keychain Get_keychain cs)
qed

text \<open>The theorem at two concrete credentials.\<close>

theorem Add_Add_Get_overwrite_witness:
  "fst (Get keychain_get ''registry.example.com''
           (snd (Add keychain_delete keychain_add ''Docker Credentials''
              \<lparr>ServerURL = ''registry.example.com'', Username = ''bob'', Secret = ''new''\<rparr>
              (snd (Add keychain_delete keychain_add ''Docker Credentials''
                 \<lparr>ServerURL = ''registry.example.com'', Username = ''alice'', Secret = ''old''\<rparr> Map.empty)))))
         = Inr (''bob'', ''new'')"
proof -
  have n: "splitServer ''registry.example.com'' = Inr \<lparr>proto = kSecProtocolTypeHTTPS, host = ''registry.example.com'', port = 0, path = []\<rparr>"
    by (simp add: eval_defs)
  have u: "CHR 0x00 \<notin> set ''bob''" and p: "CHR 0x00 \<notin> set ''new''" by simp_all
  show ?thesis using Add_Add_Get_overwrite [OF n u p] by simp
qed

text \<open>
  Claim C2 as stated ranges over every serverURL: for the empty serverURL both \<open>Add\<close>
  calls fail and \<open>Get\<close> returns the missing-host error; and a secret with a NUL byte comes
  back cut at that byte.
\<close>

theorem Add_Add_Get_overwrite_counterexample:
  "fst (Get keychain_get []
           (snd (Add keychain_delete keychain_add ''Docker Credentials''
              \<lparr>ServerURL = [], Username = ''bob'', Secret = ''new''\<rparr>
              (snd (Add keychain_delete keychain_add ''Docker Credentials''
                 \<lparr>ServerURL = [], Username = ''alice'', Secret = ''old''\<rparr> Map.empty)))))
     = Inl (ErrorString ''no hostname in URL'') \<and>
   fst (Get keychain_get ''host''
           (snd (Add keychain_delete keychain_add ''Docker Credentials''
              \<lparr>ServerURL = ''host'', Username = ''bob'', Secret = [CHR ''n'', CHR 0x00, CHR ''w'']\<rparr>
              (snd (Add keychain_delete keychain_add ''Docker Credentials''
                 \<lparr>ServerURL = ''host'', Username = ''alice'', Secret = ''old''\<rparr> Map.empty)))))
     = Inr (''bob'', ''n'')"
proof -
  have e: "splitServer [] = Inl (ErrorString ''no hostname in URL'')"
    by (simp add: eval_defs)
  have n: "splitServer ''host'' = Inr \<lparr>proto = kSecProtocolTypeHTTPS, host = ''host'', port = 0, path = []\<rparr>"
    by (simp add: eval_defs)
  show ?thesis
    by (simp add: e n Add_def Delete_def Get_def keychain_add_def keychain_delete_def keychain_get_def CString_def)
qed

section \<open>Errors of \<open>Get\<close> and \<open>Delete\<close>\<close>

text \<open>
  Claim C3.  For a serverURL that normalizes successfully and has no entry in the
  modelled keychain, \<open>Get\<close> returns the typed not-found error; with any primitive,
  \<open>Get\<close> returns the typed not-found error exactly when the primitive's message is
  \<open>errCredentialsNotFound\<close>, and for every other message a generic error carrying that
  message.
\<close>

theorem Get_errors:
  assumes "splitServer serverURL = Inr s"
  shows "(st s = None \<longrightarrow> Get keychain_get serverURL st = (Inl ErrCredentialsNotFound, st)) \<and>
         (kget s st0 = (Inl errCredentialsNotFound, st1) \<longrightarrow>
            Get kget serverURL st0 = (Inl ErrCredentialsNotFound, st1)) \<and>
         (kget s st0 = (Inl goMsg, st1) \<and> goMsg \<noteq> errCredentialsNotFound \<longrightarrow>
            Get kget serverURL st0 = (Inl (ErrorString goMsg), st1))"
  using assms by (simp add: Get_def keychain_get_def)

text \<open>The theorem on the empty keychain, and with a primitive that reports another
  failure.\<close>

theorem Get_errors_witness:
  "Get keychain_get ''registry.example.com'' Map.empty = (Inl ErrCredentialsNotFound, Map.empty) \<and>
   Get (\<lambda>s st. (Inl errCredentialsNotFound, st)) ''registry.example.com'' (0::nat)
     = (Inl ErrCredentialsNotFound, 0) \<and>
   Get (\<lambda>s st. (Inl ''User interaction is not allowed.'', st)) ''registry.example.com'' (0::nat)
     = (Inl (ErrorString ''User interaction is not allowed.''), 0)"
proof -
  have n: "splitServer ''registry.example.com'' = Inr \<lparr>proto = kSecProtocolTypeHTTPS, host = ''registry.example.com'', port = 0, path = []\<rparr>"
    by (simp add: eval_defs)
  have d: "''User interaction is not allowed.'' \<noteq> errCredentialsNotFound"
    by (simp add: errCredentialsNotFound_def)
  show ?thesis
    using Get_errors [OF n, of Map.empty "\<lambda>s st. (Inl ''User interaction is not allowed.'', st)" "0::nat" 0
        "''User interaction is not allowed.''"]
      Get_errors [OF n, of Map.empty "\<lambda>s st. (Inl errCredentialsNotFound, st)" "0::nat" 0] d
    by simp
qed

text \<open>
  Claim C4.  For a serverURL that normalizes successfully and has no entry in the
  modelled keychain, \<open>Delete\<close> returns a generic error carrying the primitive's message;
  with any primitive, a message the primitive reports comes back in a generic error; and
  with any primitive, on any serverURL, \<open>Delete\<close> never returns the typed not-found
  error.
\<close>

theorem Delete_errors:
  assumes "splitServer serverURL = Inr s"
  shows "(st s = None \<longrightarrow>
            Delete keychain_delete serverURL st = (Some (ErrorString errCredentialsNotFound), st)) \<and>
         (kdelete s st0 = (Some errMsg, st1) \<longrightarrow>
            Delete kdelete serverURL st0 = (Some (ErrorString errMsg), st1)) \<and>
         fst (Delete kdelete url st0) \<noteq> Some ErrCredentialsNotFound"
proof -
  have "fst (Delete kdelete url st0) \<noteq> Some ErrCredentialsNotFound"
    by (auto simp: Delete_def split: sum.splits prod.splits option.splits dest: splitServer_Inl)
  with assms show ?thesis by (simp add: Delete_def keychain_delete_def)
qed

text \<open>The theorem on the empty keychain, and with a primitive that reports another
  failure.\<close>

theorem Delete_errors_witness:
  "Delete keychain_delete ''registry.example.com'' Map.empty
     = (Some (ErrorString ''The specified item could not be found in the keychain.''), Map.empty) \<and>
   Delete (\<lambda>s st. (Some ''User interaction is not allowed.'', st)) ''registry.example.com'' (0::nat)
     = (Some (ErrorString ''User interaction is not allowed.''), 0)"
proof -
  have n: "splitServer ''registry.example.com'' = Inr \<lparr>proto = kSecProtocolTypeHTTPS, host = ''registry.example.com'', port = 0, path = []\<rparr>"
    by (simp add: eval_defs)
  show ?thesis
    using Delete_errors [OF n, of Map.empty keychain_delete Map.empty _ _ "''registry.example.com''"]
      Delete_errors [OF n, of Map.empty "\<lambda>s st. (Some ''User interaction is not allowed.'', st)" "0::nat"
        "''User interaction is not allowed.''" 0 "''registry.example.com''"]
    by (simp add: errCredentialsNotFound_def)
qed

section \<open>\<open>List\<close>\<close>

text \<open>
  Claim C8.  When the enumeration primitive succeeds with \<open>n\<close> keys and \<open>n\<close> accounts,
  \<open>List\<close> returns the map in which the later of two pairs with one key wins and the
  pairs with the key \<open>0\<close> are left out: the key \<open>0\<close> is not in the map, every other key
  is, a key is mapped to the account of its last pair, and every entry of the map is one
  of the enumerated (key, account) pairs, so the map holds accounts and nothing else.
\<close>

theorem List_map:
  assumes "klist (CString credsLabel) st = (Inr (paths, accts, n), st')"
    and "length paths = n" and "length accts = n"
  shows "\<exists>resp. List klist credsLabel st = (Inr resp, st') \<and>
           resp = map_of (rev (filter (\<lambda>(k, a). k \<noteq> ''0'') (zip paths accts))) \<and>
           resp ''0'' = None \<and>
           (\<forall>i<n. paths ! i \<noteq> ''0'' \<longrightarrow> paths ! i \<in> dom resp) \<and>
           (\<forall>i<n. paths ! i \<noteq> ''0'' \<and> (\<forall>j. i < j \<and> j < n \<longrightarrow> paths ! j \<noteq> paths ! i) \<longrightarrow>
                   resp (paths ! i) = Some (accts ! i)) \<and>
           (\<forall>k a. resp k = Some a \<longrightarrow> (\<exists>i<n. paths ! i = k \<and> accts ! i = a))"
proof -
  let ?resp = "List_loop paths accts n 0 Map.empty"
  have l: "List klist credsLabel st = (Inr ?resp, st')"
    using assms(1) by (simp add: List_def)
  have c: "?resp = map_of (rev (filter (\<lambda>(k, a). k \<noteq> ''0'') (zip paths accts)))"
    using List_loop_closed [of 0 n paths accts Map.empty] assms(2,3) by simp
  have z: "?resp ''0'' = None" by (simp add: List_loop_sentinel)
  have last: "?resp (paths ! i) = Some (accts ! i)"
    if "i < n" "paths ! i \<noteq> ''0''" "\<forall>j. i < j \<and> j < n \<longrightarrow> paths ! j \<noteq> paths ! i" for i
    using that by (intro List_loop_last) simp_all
  have orig: "\<exists>i<n. paths ! i = k \<and> accts ! i = a" if "?resp k = Some a" for k a
    using List_loop_origin [OF that] by auto
  have dom: "paths ! i \<in> dom ?resp" if "i < n" "paths ! i \<noteq> ''0''" for i
  proof -
    have "(paths ! i, accts ! i) \<in> set (zip paths accts)"
      using that(1) assms(2,3) by (auto simp: set_zip)
    then have "(paths ! i, accts ! i) \<in> set (rev (filter (\<lambda>(k, a). k \<noteq> ''0'') (zip paths accts)))"
      using that(2) by simp
    then have "paths ! i \<in> fst ` set (rev (filter (\<lambda>(k, a). k \<noteq> ''0'') (zip paths accts)))"
      by (rule image_eqI [rotated]) simp
    then show ?thesis by (simp only: c dom_map_of_conv_image_fst)
  qed
  show ?thesis
    apply (rule exI [of _ ?resp])
    using l c z last orig dom by blast
qed

text \<open>The theorem at an enumeration with a \<open>0\<close> key and a repeated key.\<close>

theorem List_map_witness:
  "fst (List (\<lambda>lbl st. (Inr ([''host1'', ''0'', ''host2'', ''host1''], [''alice'', ''nobody'', ''bob'', ''carol''], 4), st))
          ''Docker Credentials'' (0::nat))
     = Inr (map_of [(''host1'', ''carol''), (''host2'', ''bob''), (''host1'', ''alice'')])"
  using List_map [of "\<lambda>lbl st. (Inr ([''host1'', ''0'', ''host2'', ''host1''], [''alice'', ''nobody'', ''bob'', ''carol''], 4), st)"
      "''Docker Credentials''" "0::nat" "[''host1'', ''0'', ''host2'', ''host1'']"
      "[''alice'', ''nobody'', ''bob'', ''carol'']" 4 0]
  by simp

section \<open>Failures and the state of the keychain\<close>

text \<open>
  Claim C9, as amended.  With primitives that change nothing when they report a failure:
  \<open>Delete\<close>, \<open>Get\<close> and \<open>List\<close> that return an error leave the keychain as it was; so
  does an \<open>Add\<close> whose serverURL does not normalize; and an \<open>Add\<close> that returns any
  error leaves the keychain either as it was or as its own first \<open>Delete\<close> left it, that
  is without the entry that was stored under the key.
\<close>

theorem errors_leave_state:
  assumes del: "\<And>s st msg st'. kdelete s st = (Some msg, st') \<Longrightarrow> st' = st"
    and add: "\<And>s l u p st msg st'. kadd s l u p st = (Some msg, st') \<Longrightarrow> st' = st"
    and get: "\<And>s st msg st'. kget s st = (Inl msg, st') \<Longrightarrow> st' = st"
    and lst: "\<And>l st msg st'. klist l st = (Inl msg, st') \<Longrightarrow> st' = st"
  shows "(Delete kdelete serverURL st = (Some e, st') \<longrightarrow> st' = st) \<and>
         (Get kget serverURL st = (Inl e, st') \<longrightarrow> st' = st) \<and>
         (List klist credsLabel st = (Inl e, st') \<longrightarrow> st' = st) \<and>
         (splitServer (ServerURL creds) = Inl e \<longrightarrow>
            Add kdelete kadd credsLabel creds st = (Some e, st)) \<and>
         (Add kdelete kadd credsLabel creds st = (Some e, st') \<longrightarrow>
            st' = st \<or>
            (\<exists>s. splitServer (ServerURL creds) = Inr s \<and> kdelete s st = (None, st')))"
proof -
  have a: "Delete kdelete serverURL st = (Some e, st') \<longrightarrow> st' = st"
    by (auto simp: Delete_def split: sum.splits prod.splits option.splits dest: del)
  have b: "Get kget serverURL st = (Inl e, st') \<longrightarrow> st' = st"
    by (auto simp: Get_def split: sum.splits prod.splits if_splits dest: get)
  have c: "List klist credsLabel st = (Inl e, st') \<longrightarrow> st' = st"
    by (auto simp: List_def split: sum.splits prod.splits dest: lst)
  have d: "splitServer (ServerURL creds) = Inl e \<longrightarrow>
            Add kdelete kadd credsLabel creds st = (Some e, st)"
    by (simp add: Add_Inl)
  have e: "st' = st \<or> (\<exists>s. splitServer (ServerURL creds) = Inr s \<and> kdelete s st = (None, st'))"
    if f: "Add kdelete kadd credsLabel creds st = (Some e, st')"
  proof (cases "splitServer (ServerURL creds)")
    case (Inl err)
    with f show ?thesis by (simp add: Add_Inl)
  next
    case (Inr s)
    obtain r1 st1 where k1: "kdelete s st = (r1, st1)" by (cases "kdelete s st")
    obtain r2 st2 where k2:
      "kadd s (CString credsLabel) (CString (Username creds)) (CString (Secret creds)) st1 = (r2, st2)"
      by (cases "kadd s (CString credsLabel) (CString (Username creds)) (CString (Secret creds)) st1")
    from f Inr k1 k2 obtain msg where r2: "r2 = Some msg" and st': "st' = st2"
      by (auto simp: Add_Inr)
    from add k2 r2 have "st2 = st1" by blast
    with st' have s1: "st' = st1" by simp
    show ?thesis
    proof (cases r1)
      case None
      with k1 s1 Inr show ?thesis by simp
    next
      case (Some m)
      with del k1 have "st1 = st" by blast
      with s1 show ?thesis by simp
    qed
  qed
  from a b c d e show ?thesis by blast
qed

text \<open>The theorem on the empty modelled keychain, with an enumeration that fails.\<close>

theorem errors_leave_state_witness:
  "Delete keychain_delete ''registry.example.com'' Map.empty
     = (Some (ErrorString errCredentialsNotFound), Map.empty) \<and>
   Get keychain_get ''registry.example.com'' Map.empty
     = (Inl ErrCredentialsNotFound, Map.empty) \<and>
   List (\<lambda>l st. (Inl ''User interaction is not allowed.'', st)) ''Docker Credentials''
       (Map.empty :: keychain)
     = (Inl (ErrorString ''User interaction is not allowed.''), Map.empty) \<and>
   Add keychain_delete keychain_add ''Docker Credentials''
     \<lparr>ServerURL = ''ftp://host'', Username = ''alice'', Secret = ''s3cret''\<rparr> Map.empty
     = (Some (ErrorString ''unsupported scheme: ftp''), Map.empty)"
proof -
  have n: "splitServer ''registry.example.com'' = Inr \<lparr>proto = kSecProtocolTypeHTTPS, host = ''registry.example.com'', port = 0, path = []\<rparr>"
    by (simp add: eval_defs)
  have f: "splitServer ''ftp://host'' = Inl (ErrorString ''unsupported scheme: ftp'')"
    by (simp add: eval_defs)
  have d: "Delete keychain_delete ''registry.example.com'' Map.empty
     = (Some (ErrorString errCredentialsNotFound), Map.empty)"
    by (simp add: Delete_def n keychain_delete_def)
  have g: "Get keychain_get ''registry.example.com'' Map.empty
     = (Inl ErrCredentialsNotFound, Map.empty)"
    by (simp add: Get_def n keychain_get_def)
  have l: "List (\<lambda>l st. (Inl ''User interaction is not allowed.'', st)) ''Docker Credentials''
       (Map.empty :: keychain)
     = (Inl (ErrorString ''User interaction is not allowed.''), Map.empty)"
    by (simp add: List_def)
  have lst: "\<And>l st msg st'. (\<lambda>l st. (Inl ''User interaction is not allowed.'', st)) l (st :: keychain)
               = (Inl msg, st') \<Longrightarrow> st' = st"
    by simp
  have get: "\<And>s st msg st'. keychain_get s st = (Inl msg, st') \<Longrightarrow> st' = st"
    by (rule keychain_get_atomic)
  note t = errors_leave_state [where kdelete = keychain_delete and kadd = keychain_add
      and kget = keychain_get and klist = "\<lambda>l st. (Inl ''User interaction is not allowed.'', st)"
      and serverURL = "''registry.example.com''" and st = Map.empty
      and e = "ErrorString ''unsupported scheme: ftp''" and st' = Map.empty
      and credsLabel = "''Docker Credentials''"
      and creds = "\<lparr>ServerURL = ''ftp://host'', Username = ''alice'', Secret = ''s3cret''\<rparr>",
      OF keychain_delete_atomic keychain_add_atomic get lst]
  show ?thesis using t d g l f by simp
qed

text \<open>
  Claim C9 as stated fails for \<open>Add\<close>: when the entry for the key exists and the add
  primitive reports a failure, \<open>Add\<close> returns that error and the old entry is gone, since
  the first \<open>Delete\<close> has removed it.
\<close>

theorem errors_leave_state_counterexample:
  "splitServer ''host'' = Inr \<lparr>proto = kSecProtocolTypeHTTPS, host = ''host'', port = 0, path = []\<rparr> \<and>
   Add keychain_delete (\<lambda>s l u p st. (Some ''User interaction is not allowed.'', st))
       ''Docker Credentials''
       \<lparr>ServerURL = ''host'', Username = ''bob'', Secret = ''new''\<rparr>
       [\<lparr>proto = kSecProtocolTypeHTTPS, host = ''host'', port = 0, path = []\<rparr> \<mapsto>
          \<lparr>item_label = ''Docker Credentials'', item_account = ''alice'', item_secret = ''old''\<rparr>]
     = (Some (ErrorString ''User interaction is not allowed.''), Map.empty) \<and>
   [\<lparr>proto = kSecProtocolTypeHTTPS, host = ''host'', port = 0, path = []\<rparr> \<mapsto>
          \<lparr>item_label = ''Docker Credentials'', item_account = ''alice'', item_secret = ''old''\<rparr>]
     \<lparr>proto = kSecProtocolTypeHTTPS, host = ''host'', port = 0, path = []\<rparr>
     \<noteq> (Map.empty :: keychain) \<lparr>proto = kSecProtocolTypeHTTPS, host = ''host'', port = 0, path = []\<rparr>"
proof -
  have n: "splitServer ''host'' = Inr \<lparr>proto = kSecProtocolTypeHTTPS, host = ''host'', port = 0, path = []\<rparr>"
    by (simp add: eval_defs)
  show ?thesis
    by (simp add: n Add_Inr keychain_delete_def)
qed

section \<open>\<open>Add\<close> and its first \<open>Delete\<close>\<close>

text \<open>
  Claim C10, as amended.  \<open>Add\<close> drops whatever its first \<open>Delete\<close> returns and goes on
  to normalize the serverURL.  When the serverURL normalizes, the primitives invoked are
  the delete primitive and then the add primitive, the add primitive runs on the state the
  delete primitive left, and the result of \<open>Add\<close> is that of the add primitive, whatever
  the delete primitive reported.  When the serverURL does not normalize, \<open>Add\<close> returns
  the normalization error and invokes no primitive.
\<close>

theorem Add_ignores_Delete:
  "Add (traced_delete kdelete) (traced_add kadd) credsLabel creds (tr, st) =
     (case splitServer (ServerURL creds) of
        Inl err \<Rightarrow> (Some err, (tr, st))
      | Inr s \<Rightarrow>
          (case kdelete s st of
             (r1, st1) \<Rightarrow>
               (case kadd s (CString credsLabel) (CString (Username creds))
                       (CString (Secret creds)) st1 of
                  (r2, st2) \<Rightarrow>
                    (map_option ErrorString r2,
                     (tr @ [Call_keychain_delete s,
                            Call_keychain_add s (CString credsLabel) (CString (Username creds))
                              (CString (Secret creds))],
                      st2)))))"
  by (auto simp: Add_Inl Add_Inr traced_delete_def traced_add_def split: sum.splits prod.splits)

text \<open>The theorem with a delete primitive that fails: the entry is added all the same.\<close>

theorem Add_ignores_Delete_witness:
  "Add (traced_delete (\<lambda>s st. (Some ''User interaction is not allowed.'', st)))
       (traced_add keychain_add) ''Docker Credentials''
       \<lparr>ServerURL = ''host'', Username = ''bob'', Secret = ''new''\<rparr> ([], Map.empty)
     = (None,
        ([Call_keychain_delete \<lparr>proto = kSecProtocolTypeHTTPS, host = ''host'', port = 0, path = []\<rparr>,
          Call_keychain_add \<lparr>proto = kSecProtocolTypeHTTPS, host = ''host'', port = 0, path = []\<rparr>
            ''Docker Credentials'' ''bob'' ''new''],
         [\<lparr>proto = kSecProtocolTypeHTTPS, host = ''host'', port = 0, path = []\<rparr> \<mapsto>
            \<lparr>item_label = ''Docker Credentials'', item_account = ''bob'', item_secret = ''new''\<rparr>]))"
proof -
  have n: "splitServer ''host'' = Inr \<lparr>proto = kSecProtocolTypeHTTPS, host = ''host'', port = 0, path = []\<rparr>"
    by (simp add: eval_defs)
  show ?thesis
    using Add_ignores_Delete [of "\<lambda>s st. (Some ''User interaction is not allowed.'', st)" keychain_add
        "''Docker Credentials''" "\<lparr>ServerURL = ''host'', Username = ''bob'', Secret = ''new''\<rparr>"
        "[]" Map.empty]
    by (simp add: n keychain_add_def CString_def)
qed

text \<open>
  Claim C10 as stated has \<open>Add\<close> invoke the add primitive also after a \<open>Delete\<close> that
  failed to normalize the serverURL.  For the empty serverURL \<open>Delete\<close> fails so, \<open>Add\<close>
  fails with the same error, and the trace of invoked primitives stays empty.
\<close>

theorem Add_ignores_Delete_counterexample:
  "Delete (traced_delete keychain_delete) [] ([], Map.empty)
     = (Some (ErrorString ''no hostname in URL''), ([], Map.empty)) \<and>
   Add (traced_delete keychain_delete) (traced_add keychain_add) ''Docker Credentials''
       \<lparr>ServerURL = [], Username = ''bob'', Secret = ''new''\<rparr> ([], Map.empty)
     = (Some (ErrorString ''no hostname in URL''), ([], Map.empty))"
proof -
  have e: "splitServer [] = Inl (ErrorString ''no hostname in URL'')"
    by (simp add: eval_defs)
  show ?thesis by (simp add: e Add_Inl Delete_def)
qed

end
